theory Spec2Isabelle
  imports Main
begin

section \<open>Python values, errors and built-ins used by the harness\<close>

text \<open>
  The exceptions that can leave the harness: \<open>ValueError\<close> is raised by
  \<open>compare_algorithms\<close> itself, \<open>ZeroDivisionError\<close> by the floor division
  in \<open>run_algorithm\<close>, \<open>IndexError\<close> by the \<open>[-1]\<close> subscripts of
  \<open>print_summary\<close>, \<open>KeyError\<close> by a dictionary subscript. \<open>SolverError\<close>
  stands for whatever an external solver raises.
\<close>

datatype py_error = ValueError | ZeroDivisionError | IndexError | KeyError | SolverError string

text \<open>Scalar option values, as they occur in keyword dictionaries and tuples.\<close>

datatype pyval = PInt int | PStr string

type_synonym kwargs = "(string \<times> pyval) list"

text \<open>
  A Python \<open>dict\<close> keeps its keys in insertion order, and the order is
  observable in \<open>print_summary\<close> and \<open>plot_convergence\<close>. It is an
  association list; \<open>d[k] = v\<close> replaces the value in place when the key is
  present and appends the pair otherwise.
\<close>

fun dict_setitem :: "('k \<times> 'a) list \<Rightarrow> 'k \<Rightarrow> 'a \<Rightarrow> ('k \<times> 'a) list" where
  "dict_setitem [] k v = [(k, v)]"
| "dict_setitem ((k', v') # kvs) k v =
     (if k' = k then (k, v) # kvs else (k', v') # dict_setitem kvs k v)"

definition dict_getitem :: "('k \<times> 'a) list \<Rightarrow> 'k \<Rightarrow> py_error + 'a" where
  "dict_getitem d k = (case map_of d k of None \<Rightarrow> Inl KeyError | Some v \<Rightarrow> Inr v)"

definition dict_keys :: "('k \<times> 'a) list \<Rightarrow> 'k list" where
  "dict_keys d = map fst d"

text \<open>\<open>a // b\<close> on Python integers: floor division, raising on a zero divisor.\<close>

definition py_floordiv :: "int \<Rightarrow> int \<Rightarrow> py_error + int" where
  "py_floordiv a b = (if b = 0 then Inl ZeroDivisionError else Inr (a div b))"

text \<open>\<open>range(n)\<close>: empty when \<open>n \<le> 0\<close>.\<close>

definition py_range :: "int \<Rightarrow> int list" where
  "py_range n = map int [0..<nat n]"

text \<open>\<open>sum(xs)\<close>: starts from \<open>0\<close> and adds from the left.\<close>

definition py_sum :: "'v::{plus,zero} list \<Rightarrow> 'v" where
  "py_sum xs = foldl (+) 0 xs"

text \<open>\<open>xs[-1]\<close>: the last element, \<open>IndexError\<close> on the empty list.\<close>

definition py_last :: "'a list \<Rightarrow> py_error + 'a" where
  "py_last xs = (if xs = [] then Inl IndexError else Inr (last xs))"

section \<open>The external solver\<close>

text \<open>
  The harness receives the solver as \<open>algorithm_class\<close> and uses four things
  of it: the constructor \<open>algorithm_class(game_rules, **kwargs)\<close>, the method
  \<open>cfr.run(n)\<close>, the attribute \<open>cfr.profile\<close> and the method
  \<open>profile.best_response()\<close>, of whose result only component \<open>[1]\<close>, the
  list of per-player values, is read. The solver instance is mutable; its state
  is threaded through the calls of \<open>run\<close>. The profile is read from the
  instance, and \<open>best_response\<close> is taken to compute from the profile without
  changing the instance. Each call may raise.
\<close>

record ('g, 's, 'p, 'v) algorithm_class =
  construct :: "'g \<Rightarrow> kwargs \<Rightarrow> py_error + 's"
  run :: "'s \<Rightarrow> int \<Rightarrow> py_error + 's"
  profile :: "'s \<Rightarrow> 'p"
  best_response :: "'p \<Rightarrow> py_error + ('p \<times> 'v list)"

section \<open>Observable effects\<close>

text \<open>
  Calls into the solver, lines printed and calls into the plotting library, in
  the order in which the harness performs them. A printed line is kept as the
  values that are formatted into it.
\<close>

datatype 'v event =
    Print_run_banner string string
  | Call_construct kwargs
  | Call_run int
  | Call_best_response
  | Print_checkpoint int 'v
  | Print_summary_header string
  | Print_summary_row string int 'v
  | Print_summary_footer
  | Plt_figure "int \<times> int"
  | Plt_style_use string
  | Plt_plot "int list" "'v list" string kwargs
  | Plt_xlabel string
  | Plt_ylabel string
  | Plt_title string
  | Plt_legend
  | Plt_grid
  | Plt_xscale string
  | Plt_yscale string
  | Plt_tight_layout
  | Plt_savefig string
  | Print_plot_saved string
  | Plt_show

section \<open>The benchmark object\<close>

text \<open>The dictionary stored under an algorithm's name in \<open>self.results\<close>.\<close>

record ('p, 'v) run_data =
  iterations :: "int list"
  exploitability :: "'v list"
  final_strategy :: 'p

record ('g, 'p, 'v) CFRBenchmark =
  game_rules :: 'g
  game_name :: string
  results :: "(string \<times> ('p, 'v) run_data) list"

definition CFRBenchmark_init :: "'g \<Rightarrow> string \<Rightarrow> ('g, 'p, 'v) CFRBenchmark" where
  "CFRBenchmark_init rules name = \<lparr>game_rules = rules, game_name = name, results = []\<rparr>"

subsection \<open>\<open>run_algorithm\<close>\<close>

text \<open>
  The body of \<open>for checkpoint in range(num_checkpoints)\<close>, over the remaining
  values of \<open>checkpoint\<close>. It carries the solver instance and the two lists the
  source appends to, and returns the events of the blocks it ran. An exception
  of the solver ends the loop at once.
\<close>

fun checkpoint_loop ::
  "('g, 's, 'p, 'v::{plus,zero}) algorithm_class \<Rightarrow> int \<Rightarrow> int list \<Rightarrow> 's \<Rightarrow> int list \<Rightarrow> 'v list
     \<Rightarrow> 'v event list \<times> (py_error + 's \<times> int list \<times> 'v list)" where
  "checkpoint_loop A checkpoint_interval [] cfr iterations_list exploitability_list =
     ([], Inr (cfr, iterations_list, exploitability_list))"
| "checkpoint_loop A checkpoint_interval (checkpoint # rest) cfr iterations_list exploitability_list =
     (let current_iter = (checkpoint + 1) * checkpoint_interval in
      case run A cfr checkpoint_interval of
        Inl e \<Rightarrow> ([Call_run checkpoint_interval], Inl e)
      | Inr cfr' \<Rightarrow>
          (case best_response A (profile A cfr') of
             Inl e \<Rightarrow> ([Call_run checkpoint_interval, Call_best_response], Inl e)
           | Inr result \<Rightarrow>
               (let exploit = py_sum (snd result);
                    (out, r) = checkpoint_loop A checkpoint_interval rest cfr'
                                 (iterations_list @ [current_iter])
                                 (exploitability_list @ [exploit])
                in ([Call_run checkpoint_interval, Call_best_response,
                     Print_checkpoint current_iter exploit] @ out, r))))"

text \<open>
  \<open>run_algorithm\<close> returns the benchmark object after the call, the events of
  the call and either the exception or the stored dictionary. The solver is
  constructed before the division, so a zero interval raises after the
  construction. \<open>self.results\<close> is assigned only after the loop has finished.
\<close>

definition run_algorithm ::
  "('g, 's, 'p, 'v::{plus,zero}) algorithm_class \<Rightarrow> string \<Rightarrow> int \<Rightarrow> int \<Rightarrow> kwargs option
     \<Rightarrow> ('g, 'p, 'v) CFRBenchmark
     \<Rightarrow> ('g, 'p, 'v) CFRBenchmark \<times> 'v event list \<times> (py_error + ('p, 'v) run_data)" where
  "run_algorithm A algorithm_name total_iterations checkpoint_interval algorithm_kwargs self =
     (let banner = [Print_run_banner algorithm_name (game_name self)];
          kw = (case algorithm_kwargs of None \<Rightarrow> [] | Some k \<Rightarrow> k)
      in case construct A (game_rules self) kw of
           Inl e \<Rightarrow> (self, banner @ [Call_construct kw], Inl e)
         | Inr cfr \<Rightarrow>
             (case py_floordiv total_iterations checkpoint_interval of
                Inl e \<Rightarrow> (self, banner @ [Call_construct kw], Inl e)
              | Inr num_checkpoints \<Rightarrow>
                  (case checkpoint_loop A checkpoint_interval (py_range num_checkpoints) cfr [] [] of
                     (out, Inl e) \<Rightarrow> (self, banner @ [Call_construct kw] @ out, Inl e)
                   | (out, Inr (cfr', iterations_list, exploitability_list)) \<Rightarrow>
                       (let data = \<lparr>iterations = iterations_list,
                                    exploitability = exploitability_list,
                                    final_strategy = profile A cfr'\<rparr>;
                            self' = self\<lparr>results := dict_setitem (results self) algorithm_name data\<rparr>
                        in (self', banner @ [Call_construct kw] @ out,
                            dict_getitem (results self') algorithm_name)))))"

subsection \<open>\<open>compare_algorithms\<close>\<close>

text \<open>
  A configuration tuple. Its positions are typed as the docstring declares
  them (class, name, keyword dictionary); a tuple may have any length, and the
  harness inspects the length only.
\<close>

datatype 'c config =
    T0
  | T1 'c
  | T2 'c string
  | T3 'c string "kwargs option"
  | TN 'c string "kwargs option" pyval "pyval list"

fun len_config :: "'c config \<Rightarrow> nat" where
  "len_config T0 = 0"
| "len_config (T1 c) = 1"
| "len_config (T2 c n) = 2"
| "len_config (T3 c n k) = 3"
| "len_config (TN c n k x xs) = 4 + length xs"

text \<open>The \<open>if len(config) == 2 / elif len(config) == 3 / else raise\<close> chain.\<close>

fun unpack_config :: "'c config \<Rightarrow> py_error + ('c \<times> string \<times> kwargs option)" where
  "unpack_config (T2 algorithm_class algorithm_name) = Inr (algorithm_class, algorithm_name, Some [])"
| "unpack_config (T3 algorithm_class algorithm_name algorithm_kwargs) =
     Inr (algorithm_class, algorithm_name, algorithm_kwargs)"
| "unpack_config _ = Inl ValueError"

fun compare_algorithms ::
  "('g, 's, 'p, 'v::{plus,zero}) algorithm_class config list \<Rightarrow> int \<Rightarrow> int
     \<Rightarrow> ('g, 'p, 'v) CFRBenchmark
     \<Rightarrow> ('g, 'p, 'v) CFRBenchmark \<times> 'v event list \<times> (py_error + unit)" where
  "compare_algorithms [] total_iterations checkpoint_interval self = (self, [], Inr ())"
| "compare_algorithms (config # rest) total_iterations checkpoint_interval self =
     (case unpack_config config of
        Inl e \<Rightarrow> (self, [], Inl e)
      | Inr (algorithm_class, algorithm_name, algorithm_kwargs) \<Rightarrow>
          (case run_algorithm algorithm_class algorithm_name total_iterations
                  checkpoint_interval algorithm_kwargs self of
             (self', out, Inl e) \<Rightarrow> (self', out, Inl e)
           | (self', out, Inr _) \<Rightarrow>
               (let (self'', out', r) = compare_algorithms rest total_iterations
                                          checkpoint_interval self'
                in (self'', out @ out', r))))"

subsection \<open>\<open>print_summary\<close>\<close>

text \<open>
  The loop over \<open>self.results.items()\<close>. Both subscripts \<open>[-1]\<close> are
  evaluated before the row is printed.
\<close>

fun summary_rows :: "(string \<times> ('p, 'v) run_data) list \<Rightarrow> 'v event list \<times> (py_error + unit)" where
  "summary_rows [] = ([], Inr ())"
| "summary_rows ((algorithm_name, data) # rest) =
     (case py_last (iterations data) of
        Inl e \<Rightarrow> ([], Inl e)
      | Inr final_iter \<Rightarrow>
          (case py_last (exploitability data) of
             Inl e \<Rightarrow> ([], Inl e)
           | Inr final_exploit \<Rightarrow>
               (let (out, r) = summary_rows rest
                in (Print_summary_row algorithm_name final_iter final_exploit # out, r))))"

definition print_summary ::
  "('g, 'p, 'v) CFRBenchmark \<Rightarrow> ('g, 'p, 'v) CFRBenchmark \<times> 'v event list \<times> (py_error + unit)" where
  "print_summary self =
     (let (rows, r) = summary_rows (results self)
      in (self,
          [Print_summary_header (game_name self)] @ rows @
            (case r of Inl e \<Rightarrow> [] | Inr u \<Rightarrow> [Print_summary_footer]),
          r))"

subsection \<open>\<open>plot_convergence\<close>\<close>

text \<open>
  \<open>style_config and algorithm_name in style_config\<close>: a \<open>None\<close> or empty
  dictionary is false. The plotting library's calls are recorded as events and
  taken not to raise.
\<close>

definition plot_style :: "(string \<times> kwargs) list option \<Rightarrow> string \<Rightarrow> kwargs" where
  "plot_style style_config algorithm_name =
     (case style_config of
        None \<Rightarrow> [(''linewidth'', PInt 2)]
      | Some sc \<Rightarrow>
          (if sc \<noteq> [] \<and> algorithm_name \<in> set (dict_keys sc)
           then (case map_of sc algorithm_name of Some style \<Rightarrow> style
                 | None \<Rightarrow> [(''linewidth'', PInt 2)])
           else [(''linewidth'', PInt 2)]))"

definition plot_convergence ::
  "string option \<Rightarrow> bool \<Rightarrow> int \<times> int \<Rightarrow> (string \<times> kwargs) list option
     \<Rightarrow> ('g, 'p, 'v) CFRBenchmark \<Rightarrow> ('g, 'p, 'v) CFRBenchmark \<times> 'v event list" where
  "plot_convergence save_path log_scale figsize style_config self =
     (self,
      [Plt_figure figsize, Plt_style_use ''seaborn-v0_8-darkgrid''] @
      map (\<lambda>(algorithm_name, data).
             Plt_plot (iterations data) (exploitability data) algorithm_name
               (plot_style style_config algorithm_name)) (results self) @
      [Plt_xlabel ''Iterations'', Plt_ylabel ''Exploitability'', Plt_title (game_name self),
       Plt_legend, Plt_grid] @
      (if log_scale then [Plt_xscale ''log'', Plt_yscale ''log''] else []) @
      [Plt_tight_layout] @
      (case save_path of
         None \<Rightarrow> []
       | Some path \<Rightarrow> (if path \<noteq> [] then [Plt_savefig path, Print_plot_saved path] else [])) @
      [Plt_show])"

section \<open>Notions used to state the properties\<close>

text \<open>
  The keyword dictionary that reaches the constructor: \<open>None\<close> is replaced
  by the empty dictionary.
\<close>

definition passed_kwargs :: "kwargs option \<Rightarrow> kwargs" where
  "passed_kwargs algorithm_kwargs = (case algorithm_kwargs of None \<Rightarrow> [] | Some k \<Rightarrow> k)"

text \<open>
  The solver instance after \<open>k\<close> successive calls \<open>run(n)\<close>, when none of
  them raises.
\<close>

fun advance :: "('g, 's, 'p, 'v) algorithm_class \<Rightarrow> int \<Rightarrow> nat \<Rightarrow> 's \<Rightarrow> py_error + 's" where
  "advance A n 0 cfr = Inr cfr"
| "advance A n (Suc k) cfr =
     (case run A cfr n of Inl e \<Rightarrow> Inl e | Inr cfr' \<Rightarrow> advance A n k cfr')"

text \<open>The events of one block of the checkpoint loop.\<close>

definition block_events :: "int \<Rightarrow> int \<Rightarrow> 'v \<Rightarrow> 'v event list" where
  "block_events checkpoint_interval current_iter exploit =
     [Call_run checkpoint_interval, Call_best_response, Print_checkpoint current_iter exploit]"

text \<open>The arguments of the calls \<open>run(n)\<close> and of the constructor calls in a trace.\<close>

fun run_calls :: "'v event list \<Rightarrow> int list" where
  "run_calls [] = []"
| "run_calls (Call_run n # es) = n # run_calls es"
| "run_calls (e # es) = run_calls es"

fun construct_calls :: "'v event list \<Rightarrow> kwargs list" where
  "construct_calls [] = []"
| "construct_calls (Call_construct kw # es) = kw # construct_calls es"
| "construct_calls (e # es) = construct_calls es"


text \<open>The names on the summary rows and on the curves of the plot, in a trace.\<close>

fun summary_row_names :: "'v event list \<Rightarrow> string list" where
  "summary_row_names [] = []"
| "summary_row_names (Print_summary_row n i v # es) = n # summary_row_names es"
| "summary_row_names (e # es) = summary_row_names es"


text \<open>
  The row that \<open>print_summary\<close> prints for a stored run, and the condition
  under which both of its subscripts \<open>[-1]\<close> succeed.
\<close>

definition summary_row :: "string \<times> ('p, 'v) run_data \<Rightarrow> 'v event" where
  "summary_row = (\<lambda>(algorithm_name, data).
     Print_summary_row algorithm_name (last (iterations data)) (last (exploitability data)))"

definition has_checkpoint :: "('p, 'v) run_data \<Rightarrow> bool" where
  "has_checkpoint data \<longleftrightarrow> iterations data \<noteq> [] \<and> exploitability data \<noteq> []"

text \<open>The two lists of every stored run have the same length.\<close>

definition lists_aligned :: "('g, 'p, 'v) CFRBenchmark \<Rightarrow> bool" where
  "lists_aligned self \<longleftrightarrow>
     list_all (\<lambda>(algorithm_name, data). length (iterations data) = length (exploitability data))
       (results self)"

subsection \<open>A concrete solver and session\<close>

text \<open>
  A solver whose state is the number of iterations it has run, and whose best
  response values are that number and one.
\<close>

definition counting_solver :: "(unit, int, int, int) algorithm_class" where
  "counting_solver =
     \<lparr>construct = (\<lambda>g kw. Inr 0),
      run = (\<lambda>s n. Inr (s + n)),
      profile = (\<lambda>s. s),
      best_response = (\<lambda>p. Inr (p, [p, 1]))\<rparr>"

definition demo_session :: "(unit, int, int) CFRBenchmark" where
  "demo_session = CFRBenchmark_init () ''Leduc Poker''"

definition demo_data :: "(int, int) run_data" where
  "demo_data = \<lparr>iterations = [10, 20], exploitability = [11, 21], final_strategy = 20\<rparr>"

definition demo_out :: "int event list" where
  "demo_out = [Print_run_banner ''x'' ''Leduc Poker'', Call_construct [],
       Call_run 10, Call_best_response, Print_checkpoint 10 11,
       Call_run 10, Call_best_response, Print_checkpoint 20 21]"

text \<open>The runs and batches of the examples.\<close>

definition demo_data_500 :: "(int, int) run_data" where
  "demo_data_500 = \<lparr>iterations = [500, 1000], exploitability = [501, 1001], final_strategy = 1000\<rparr>"

definition demo_data_30 :: "(int, int) run_data" where
  "demo_data_30 = \<lparr>iterations = [10, 20, 30], exploitability = [11, 21, 31], final_strategy = 30\<rparr>"

definition demo_batch :: "(unit, int, int, int) algorithm_class config list" where
  "demo_batch = [T2 counting_solver ''x'', T3 counting_solver ''y'' (Some [(''k'', PInt 1)])]"

definition demo_malformed :: "(unit, int, int, int) algorithm_class config" where
  "demo_malformed = TN counting_solver ''z'' None (PInt 1) []"

text \<open>The run stored by a call whose interval exceeds its budget.\<close>

definition demo_empty :: "(int, int) run_data" where
  "demo_empty = \<lparr>iterations = [], exploitability = [], final_strategy = 0\<rparr>"

text \<open>
  A session with a run without checkpoints between two ordinary runs, and a
  session that already holds a run named \<open>y\<close>.
\<close>

definition demo_mixed_session :: "(unit, int, int) CFRBenchmark" where
  "demo_mixed_session =
     fst (run_algorithm counting_solver ''b'' 25 10 None
       (fst (run_algorithm counting_solver ''x'' 5 10 None
         (fst (run_algorithm counting_solver ''a'' 25 10 None demo_session)))))"


section \<open>Built-ins\<close>

lemma dict_getitem_setitem: "dict_getitem (dict_setitem d k v) k = Inr v"
  by (induction d) (auto simp: dict_getitem_def)

lemma py_sum_sum_list: "py_sum (xs :: 'v::monoid_add list) = sum_list xs"
proof -
  have "foldl (+) a xs = a + sum_list xs" for a :: 'v
    by (induction xs arbitrary: a) (simp_all add: add.assoc)
  from this [of 0] show ?thesis by (simp add: py_sum_def)
qed

section \<open>The checkpoint loop\<close>

lemma loop_step:
  assumes "checkpoint_loop A ci (c # cps) cfr its exs = (out, Inr R)"
  obtains cfr1 result out1 where
    "run A cfr ci = Inr cfr1"
    "best_response A (profile A cfr1) = Inr result"
    "checkpoint_loop A ci cps cfr1 (its @ [(c + 1) * ci]) (exs @ [py_sum (snd result)])
       = (out1, Inr R)"
    "out = block_events ci ((c + 1) * ci) (py_sum (snd result)) @ out1"
  using assms
  by (auto simp: Let_def block_events_def split: sum.splits prod.splits)

lemma loop_iterations:
  "checkpoint_loop A ci cps cfr its exs = (out, Inr (cfr', its', exs'))
   \<Longrightarrow> its' = its @ map (\<lambda>c. (c + 1) * ci) cps"
proof (induction cps arbitrary: cfr its exs out)
  case Nil
  then show ?case by simp
next
  case (Cons c cps)
  from Cons.prems obtain cfr1 result out1 where
    "run A cfr ci = Inr cfr1"
    "best_response A (profile A cfr1) = Inr result"
    "checkpoint_loop A ci cps cfr1 (its @ [(c + 1) * ci]) (exs @ [py_sum (snd result)])
       = (out1, Inr (cfr', its', exs'))"
    "out = block_events ci ((c + 1) * ci) (py_sum (snd result)) @ out1"
    by (rule loop_step)
  from Cons.IH [OF this(3)] show ?case by simp
qed

lemma loop_trace:
  "checkpoint_loop A ci cps cfr its exs = (out, Inr (cfr', its', exs'))
   \<Longrightarrow> \<exists>ms. exs' = exs @ ms \<and> length ms = length cps \<and>
          out = concat (map (\<lambda>(c, m). block_events ci ((c + 1) * ci) m) (zip cps ms))"
proof (induction cps arbitrary: cfr its exs out)
  case Nil
  then show ?case by simp
next
  case (Cons c cps)
  from Cons.prems obtain cfr1 result out1 where
    r: "run A cfr ci = Inr cfr1" and
    b: "best_response A (profile A cfr1) = Inr result" and
    l: "checkpoint_loop A ci cps cfr1 (its @ [(c + 1) * ci]) (exs @ [py_sum (snd result)])
          = (out1, Inr (cfr', its', exs'))" and
    o: "out = block_events ci ((c + 1) * ci) (py_sum (snd result)) @ out1"
    by (rule loop_step)
  from Cons.IH [OF l] obtain ms where
    ms: "exs' = (exs @ [py_sum (snd result)]) @ ms" "length ms = length cps"
        "out1 = concat (map (\<lambda>(c, m). block_events ci ((c + 1) * ci) m) (zip cps ms))"
    by blast
  show ?case
    by (rule exI [of _ "py_sum (snd result) # ms"]) (simp add: ms o)
qed

lemma loop_metrics:
  "checkpoint_loop A ci cps cfr its exs = (out, Inr (cfr', its', exs'))
   \<Longrightarrow> advance A ci (length cps) cfr = Inr cfr' \<and>
       (\<forall>j<length cps. \<exists>s result.
           advance A ci (Suc j) cfr = Inr s \<and>
           best_response A (profile A s) = Inr result \<and>
           exs' ! (length exs + j) = py_sum (snd result))"
proof (induction cps arbitrary: cfr its exs out)
  case Nil
  then show ?case by simp
next
  case (Cons c cps)
  from Cons.prems obtain cfr1 result out1 where
    r: "run A cfr ci = Inr cfr1" and
    b: "best_response A (profile A cfr1) = Inr result" and
    l: "checkpoint_loop A ci cps cfr1 (its @ [(c + 1) * ci]) (exs @ [py_sum (snd result)])
          = (out1, Inr (cfr', its', exs'))"
    by (rule loop_step)
  note ih = Cons.IH [OF l]
  from loop_trace [OF l] obtain ms where ms: "exs' = (exs @ [py_sum (snd result)]) @ ms"
    by blast
  have first: "exs' ! length exs = py_sum (snd result)"
    by (simp add: ms nth_append)
  have "\<exists>s res. advance A ci (Suc j) cfr = Inr s \<and> best_response A (profile A s) = Inr res \<and>
          exs' ! (length exs + j) = py_sum (snd res)" if "j < length (c # cps)" for j
  proof (cases j)
    case 0
    from r have "advance A ci (Suc 0) cfr = Inr cfr1" by simp
    with b first 0 show ?thesis by (metis add.right_neutral)
  next
    case (Suc i)
    with that have "i < length cps" by simp
    with ih obtain s res where
      a: "advance A ci (Suc i) cfr1 = Inr s" and
      b': "best_response A (profile A s) = Inr res" and
      e: "exs' ! (length (exs @ [py_sum (snd result)]) + i) = py_sum (snd res)"
      by blast
    have "advance A ci (Suc j) cfr = advance A ci (Suc i) cfr1"
      using r Suc by simp
    with a have a': "advance A ci (Suc j) cfr = Inr s" by simp
    from e Suc have "exs' ! (length exs + j) = py_sum (snd res)" by simp
    with a' b' show ?thesis by blast
  qed
  moreover have "advance A ci (length (c # cps)) cfr = advance A ci (length cps) cfr1"
    using r by simp
  ultimately show ?case using ih by simp
qed


section \<open>\<open>run_algorithm\<close>\<close>

text \<open>What a call that returns normally has done.\<close>

lemma run_algorithm_returns:
  assumes "run_algorithm A name ti ci kw self = (self', out, Inr data)"
  obtains cfr cfr' out1 where
    "ci \<noteq> 0"
    "construct A (game_rules self) (passed_kwargs kw) = Inr cfr"
    "checkpoint_loop A ci (py_range (ti div ci)) cfr [] []
       = (out1, Inr (cfr', iterations data, exploitability data))"
    "final_strategy data = profile A cfr'"
    "self' = self\<lparr>results := dict_setitem (results self) name data\<rparr>"
    "out = [Print_run_banner name (game_name self), Call_construct (passed_kwargs kw)] @ out1"
  using assms
  by (auto simp: run_algorithm_def passed_kwargs_def Let_def py_floordiv_def dict_getitem_setitem
           split: sum.splits prod.splits if_splits)

lemma run_calls_append: "run_calls (xs @ ys) = run_calls xs @ run_calls ys"
  by (induction xs rule: run_calls.induct) simp_all

lemma construct_calls_append: "construct_calls (xs @ ys) = construct_calls xs @ construct_calls ys"
  by (induction xs rule: construct_calls.induct) simp_all

lemma run_calls_blocks:
  "run_calls (concat (map (\<lambda>i. block_events ci (f i) (g i)) is)) = replicate (length is) ci"
  by (induction "is") (simp_all add: run_calls_append block_events_def)

lemma construct_calls_blocks:
  "construct_calls (concat (map (\<lambda>i. block_events ci (f i) (g i)) is)) = []"
  by (induction "is") (simp_all add: construct_calls_append block_events_def)

lemma zip_range_index:
  "length ms = n \<Longrightarrow> zip (py_range (int n)) ms = map (\<lambda>i. (int i, ms ! i)) [0..<n]"
  by (rule nth_equalityI) (simp_all add: py_range_def)

lemma run_algorithm_trace:
  assumes "run_algorithm A name ti ci kw self = (self', out, Inr data)"
  shows "iterations data = map (\<lambda>i. (int i + 1) * ci) [0..<nat (ti div ci)]"
    and "length (exploitability data) = nat (ti div ci)"
    and "out = [Print_run_banner name (game_name self), Call_construct (passed_kwargs kw)] @
           concat (map (\<lambda>i. block_events ci ((int i + 1) * ci) (exploitability data ! i))
                     [0..<nat (ti div ci)])"
proof -
  from assms obtain cfr cfr' out1 where
    l: "checkpoint_loop A ci (py_range (ti div ci)) cfr [] []
          = (out1, Inr (cfr', iterations data, exploitability data))" and
    o: "out = [Print_run_banner name (game_name self), Call_construct (passed_kwargs kw)] @ out1"
    by (rule run_algorithm_returns)
  have r: "py_range (ti div ci) = py_range (int (nat (ti div ci)))"
    by (simp add: py_range_def)
  from loop_iterations [OF l] show "iterations data = map (\<lambda>i. (int i + 1) * ci) [0..<nat (ti div ci)]"
    by (simp add: py_range_def comp_def)
  from loop_trace [OF l] have
    len: "length (exploitability data) = length (py_range (ti div ci))" and
    o1: "out1 = concat (map (\<lambda>(c, m). block_events ci ((c + 1) * ci) m)
                  (zip (py_range (ti div ci)) (exploitability data)))"
    by auto
  from len show len': "length (exploitability data) = nat (ti div ci)"
    by (simp add: py_range_def)
  from o1 have "out1 = concat (map (\<lambda>i. block_events ci ((int i + 1) * ci) (exploitability data ! i))
                     [0..<nat (ti div ci)])"
    unfolding r zip_range_index [OF len'] by (simp add: comp_def)
  with o show "out = [Print_run_banner name (game_name self), Call_construct (passed_kwargs kw)] @
           concat (map (\<lambda>i. block_events ci ((int i + 1) * ci) (exploitability data ! i))
                     [0..<nat (ti div ci)])"
    by simp
qed

lemma run_algorithm_metrics:
  assumes "run_algorithm A name ti ci kw self = (self', out, Inr data)"
  shows "\<exists>cfr cfr'. construct A (game_rules self) (passed_kwargs kw) = Inr cfr \<and>
           advance A ci (nat (ti div ci)) cfr = Inr cfr' \<and>
           final_strategy data = profile A cfr' \<and>
           (\<forall>i<nat (ti div ci). \<exists>s result.
              advance A ci (Suc i) cfr = Inr s \<and>
              best_response A (profile A s) = Inr result \<and>
              exploitability data ! i = py_sum (snd result))"
proof -
  from assms obtain cfr cfr' out1 where
    c: "construct A (game_rules self) (passed_kwargs kw) = Inr cfr" and
    l: "checkpoint_loop A ci (py_range (ti div ci)) cfr [] []
          = (out1, Inr (cfr', iterations data, exploitability data))" and
    f: "final_strategy data = profile A cfr'"
    by (rule run_algorithm_returns)
  from loop_metrics [OF l] c f show ?thesis
    by (simp add: py_range_def)
qed


text \<open>The example of the specification: a budget of 25 in blocks of 10.\<close>

lemma demo_run:
  "run_algorithm counting_solver ''x'' 25 10 None demo_session =
     (demo_session\<lparr>results := [(''x'', demo_data)]\<rparr>, demo_out, Inr demo_data)"
  by code_simp

section \<open>Calls that raise and calls that return\<close>

text \<open>
  The constructor is called once in every call, whether the call returns or
  raises. A call returns when the interval is not zero and the solver does not
  raise.
\<close>

lemma loop_no_construct:
  "construct_calls (fst (checkpoint_loop A ci cps cfr its exs)) = []"
proof (induction cps arbitrary: cfr its exs)
  case Nil
  then show ?case by simp
next
  case (Cons c cps)
  show ?case
  proof (cases "run A cfr ci")
    case (Inl e)
    then show ?thesis by simp
  next
    case r: (Inr cfr1)
    show ?thesis
    proof (cases "best_response A (profile A cfr1)")
      case (Inl e)
      with r show ?thesis by simp
    next
      case b: (Inr result)
      obtain out R where
        l: "checkpoint_loop A ci cps cfr1 (its @ [(c + 1) * ci]) (exs @ [py_sum (snd result)])
              = (out, R)"
        by (cases "checkpoint_loop A ci cps cfr1 (its @ [(c + 1) * ci])
                     (exs @ [py_sum (snd result)])")
      from Cons [of cfr1 "its @ [(c + 1) * ci]" "exs @ [py_sum (snd result)]"] l
      have "construct_calls out = []" by simp
      with r b l show ?thesis by (simp add: Let_def)
    qed
  qed
qed

lemma run_algorithm_constructs_once:
  "construct_calls (fst (snd (run_algorithm A name ti ci kw self))) = [passed_kwargs kw]"
proof -
  have "construct_calls out = []"
    if "checkpoint_loop A ci cps cfr [] [] = (out, r)" for cps cfr out r
    using loop_no_construct [of A ci cps cfr "[]" "[]"] that by simp
  then show ?thesis
    by (simp add: run_algorithm_def passed_kwargs_def Let_def construct_calls_append
             split: sum.splits prod.splits)
qed

lemma loop_returns_normally:
  assumes "\<forall>s. \<exists>s'. run A s ci = Inr s'" and "\<forall>p. \<exists>r. best_response A p = Inr r"
  shows "\<exists>out R. checkpoint_loop A ci cps cfr its exs = (out, Inr R)"
proof (induction cps arbitrary: cfr its exs)
  case Nil
  then show ?case by simp
next
  case (Cons c cps)
  from assms(1) obtain cfr1 where r: "run A cfr ci = Inr cfr1" by blast
  from assms(2) obtain result where b: "best_response A (profile A cfr1) = Inr result" by blast
  from Cons [of cfr1 "its @ [(c + 1) * ci]" "exs @ [py_sum (snd result)]"]
  obtain out R where
    "checkpoint_loop A ci cps cfr1 (its @ [(c + 1) * ci]) (exs @ [py_sum (snd result)]) = (out, Inr R)"
    by blast
  with r b have "checkpoint_loop A ci (c # cps) cfr its exs =
      ([Call_run ci, Call_best_response, Print_checkpoint ((c + 1) * ci) (py_sum (snd result))] @ out,
       Inr R)"
    by (simp add: Let_def)
  then show ?case by blast
qed

lemma run_algorithm_returns_normally:
  assumes "\<forall>g k. \<exists>s. construct A g k = Inr s"
    and "\<forall>s. \<exists>s'. run A s ci = Inr s'"
    and "\<forall>p. \<exists>r. best_response A p = Inr r"
    and "ci \<noteq> 0"
  shows "\<exists>self' out data. run_algorithm A name ti ci kw self = (self', out, Inr data)"
proof -
  from assms(1) obtain cfr where
    c: "construct A (game_rules self) (passed_kwargs kw) = Inr cfr" by blast
  from loop_returns_normally [OF assms(2,3)] obtain out R where
    "checkpoint_loop A ci (py_range (ti div ci)) cfr [] [] = (out, Inr R)" by blast
  then obtain cfr' its exs where
    l: "checkpoint_loop A ci (py_range (ti div ci)) cfr [] [] = (out, Inr (cfr', its, exs))"
    by (cases R) auto
  from c l assms(4) show ?thesis
    by (simp add: run_algorithm_def passed_kwargs_def Let_def py_floordiv_def dict_getitem_setitem)
qed

section \<open>The checkpoint schedule\<close>

text \<open>
  Claim C1. For a call of \<open>run_algorithm\<close> with
  \<open>0 < checkpoint_interval \<le> total_iterations\<close> that returns: the number of
  checkpoints recorded is \<open>total_iterations div checkpoint_interval\<close> (floor
  division) and is positive; the \<open>i\<close>-th checkpoint, counted from one, has the
  iteration count \<open>i * checkpoint_interval\<close>; the counts are strictly
  increasing and the last one is the quotient times the interval; the solver
  is advanced by that many blocks of \<open>checkpoint_interval\<close> iterations and no
  more, so that the iterations executed are the quotient times the interval,
  which does not exceed the budget: the remainder is never run.
\<close>

theorem run_algorithm_checkpoint_schedule:
  fixes A :: "('g, 's, 'p, 'v::{plus,zero}) algorithm_class"
  assumes "0 < checkpoint_interval" and "checkpoint_interval \<le> total_iterations"
    and "run_algorithm A name total_iterations checkpoint_interval kw self = (self', out, Inr data)"
  shows "length (iterations data) = nat (total_iterations div checkpoint_interval) \<and>
         length (exploitability data) = nat (total_iterations div checkpoint_interval) \<and>
         0 < total_iterations div checkpoint_interval \<and>
         (\<forall>i. 1 \<le> i \<and> i \<le> length (iterations data) \<longrightarrow>
              iterations data ! (i - 1) = int i * checkpoint_interval) \<and>
         sorted_wrt (<) (iterations data) \<and>
         last (iterations data) = (total_iterations div checkpoint_interval) * checkpoint_interval \<and>
         run_calls out = replicate (nat (total_iterations div checkpoint_interval)) checkpoint_interval \<and>
         sum_list (run_calls out) = (total_iterations div checkpoint_interval) * checkpoint_interval \<and>
         sum_list (run_calls out) \<le> total_iterations"
proof -
  let ?q = "total_iterations div checkpoint_interval"
  note t = run_algorithm_trace [OF assms(3)]
  from assms(1,2) have q: "0 < ?q"
    by (simp add: pos_imp_zdiv_pos_iff)
  have len: "length (iterations data) = nat ?q"
    by (simp add: t(1))
  have nth: "iterations data ! (i - 1) = int i * checkpoint_interval"
    if "1 \<le> i \<and> i \<le> length (iterations data)" for i
  proof -
    from that len have "i - 1 < nat ?q" by linarith
    then have "iterations data ! (i - 1) = (int (i - 1) + 1) * checkpoint_interval"
      by (simp add: t(1))
    moreover from that have "int (i - 1) + 1 = int i" by simp
    ultimately show ?thesis by simp
  qed
  have "sorted_wrt (\<lambda>i j. (int i + 1) * checkpoint_interval < (int j + 1) * checkpoint_interval)
          [0..<nat ?q]"
    by (rule sorted_wrt_mono_rel [OF _ sorted_wrt_upt]) (simp add: assms(1))
  then have srt: "sorted_wrt (<) (iterations data)"
    by (simp add: t(1) sorted_wrt_map)
  from q have "[0..<nat ?q] \<noteq> []" by simp
  then have lst: "last (iterations data) = ?q * checkpoint_interval"
    using q by (simp add: t(1) last_map)
  have rc: "run_calls out = replicate (nat ?q) checkpoint_interval"
    by (subst t(3)) (simp add: run_calls_append run_calls_blocks)
  have sm: "sum_list (run_calls out) = ?q * checkpoint_interval"
    using q by (simp add: rc sum_list_replicate)
  have "?q * checkpoint_interval \<le> total_iterations"
    using assms(1) by (metis div_mult_mod_eq le_add_same_cancel1 pos_mod_sign)
  with sm have le: "sum_list (run_calls out) \<le> total_iterations" by simp
  from len t(2) q nth srt lst rc sm le show ?thesis by blast
qed

theorem run_algorithm_checkpoint_schedule_witness:
  "(0::int) < 10 \<and> (10::int) \<le> 25 \<and>
   run_algorithm counting_solver ''x'' 25 10 None demo_session =
     (demo_session\<lparr>results := [(''x'', demo_data)]\<rparr>, demo_out, Inr demo_data) \<and>
   length (iterations demo_data) = nat (25 div 10) \<and>
   last (iterations demo_data) = (25 div 10) * 10 \<and>
   sum_list (run_calls demo_out) \<le> 25"
proof -
  have p1: "(0::int) < 10" and p2: "(10::int) \<le> 25" by simp_all
  note c = run_algorithm_checkpoint_schedule [OF p1 p2 demo_run]
  from p1 p2 demo_run c show ?thesis by blast
qed

section \<open>The metric\<close>

text \<open>
  Claim C3. For a call of \<open>run_algorithm\<close> that returns, every recorded metric
  value is the sum of the per-player values returned by \<open>best_response()\<close> on
  the profile of the solver at that checkpoint: the \<open>i\<close>-th value, counted from
  zero, is the sum of the values that \<open>best_response\<close> returns on the profile
  of the solver constructed by the call and advanced \<open>i + 1\<close> times by
  \<open>checkpoint_interval\<close> iterations. Python's \<open>sum\<close> adds from the left
  starting at zero; for numbers whose addition is associative with unit zero
  that is the sum of the list.
\<close>

theorem run_algorithm_metric_is_sum:
  fixes A :: "('g, 's, 'p, 'v::monoid_add) algorithm_class"
  assumes "run_algorithm A name total_iterations checkpoint_interval kw self = (self', out, Inr data)"
  shows "\<exists>cfr. construct A (game_rules self) (passed_kwargs kw) = Inr cfr \<and>
           (\<forall>i<length (exploitability data). \<exists>s result.
              advance A checkpoint_interval (Suc i) cfr = Inr s \<and>
              best_response A (profile A s) = Inr result \<and>
              exploitability data ! i = sum_list (snd result))"
  using run_algorithm_metrics [OF assms]
  unfolding py_sum_sum_list run_algorithm_trace(2) [OF assms]
  by blast

theorem run_algorithm_metric_is_sum_witness:
  "run_algorithm counting_solver ''x'' 25 10 None demo_session =
     (demo_session\<lparr>results := [(''x'', demo_data)]\<rparr>, demo_out, Inr demo_data) \<and>
   (\<exists>cfr. construct counting_solver (game_rules demo_session) (passed_kwargs None) = Inr cfr \<and>
           (\<forall>i<length (exploitability demo_data). \<exists>s result.
              advance counting_solver 10 (Suc i) cfr = Inr s \<and>
              best_response counting_solver (profile counting_solver s) = Inr result \<and>
              exploitability demo_data ! i = sum_list (snd result)))"
  using run_algorithm_metric_is_sum [OF demo_run] demo_run by blast

section \<open>The structure of a run\<close>

text \<open>
  Claim C4. In every call of \<open>run_algorithm\<close> the constructor is called
  exactly once. For a call that returns, the trace of the call is the
  banner, one constructor call, and then
  \<open>total_iterations div checkpoint_interval\<close> blocks, each of them the call
  \<open>run(checkpoint_interval)\<close>, the call \<open>best_response()\<close> and the report of
  the recorded pair, in that order. The pair recorded by block \<open>i\<close>, counted
  from zero, is \<open>(i + 1) * checkpoint_interval\<close> and the sum of the values of
  \<open>best_response()\<close> on the profile of the solver after \<open>i + 1\<close> advances.
\<close>

theorem run_algorithm_block_structure:
  fixes A :: "('g, 's, 'p, 'v::{plus,zero}) algorithm_class"
  shows "construct_calls (fst (snd (run_algorithm A name total_iterations checkpoint_interval kw self)))
           = [passed_kwargs kw] \<and>
         (run_algorithm A name total_iterations checkpoint_interval kw self = (self', out, Inr data) \<longrightarrow>
            out = [Print_run_banner name (game_name self), Call_construct (passed_kwargs kw)] @
                  concat (map (\<lambda>i. [Call_run checkpoint_interval, Call_best_response,
                                    Print_checkpoint ((int i + 1) * checkpoint_interval)
                                      (exploitability data ! i)])
                            [0..<nat (total_iterations div checkpoint_interval)]) \<and>
            iterations data = map (\<lambda>i. (int i + 1) * checkpoint_interval)
                                [0..<nat (total_iterations div checkpoint_interval)] \<and>
            length (exploitability data) = nat (total_iterations div checkpoint_interval) \<and>
            (\<exists>cfr. construct A (game_rules self) (passed_kwargs kw) = Inr cfr \<and>
               (\<forall>i<nat (total_iterations div checkpoint_interval). \<exists>s result.
                  advance A checkpoint_interval (Suc i) cfr = Inr s \<and>
                  best_response A (profile A s) = Inr result \<and>
                  exploitability data ! i = py_sum (snd result))))"
proof (intro conjI impI)
  show "construct_calls (fst (snd (run_algorithm A name total_iterations checkpoint_interval kw self)))
           = [passed_kwargs kw]"
    by (rule run_algorithm_constructs_once)
next
  assume a: "run_algorithm A name total_iterations checkpoint_interval kw self = (self', out, Inr data)"
  note t = run_algorithm_trace [OF a]
  from t(3) show
    "out = [Print_run_banner name (game_name self), Call_construct (passed_kwargs kw)] @
               concat (map (\<lambda>i. [Call_run checkpoint_interval, Call_best_response,
                                 Print_checkpoint ((int i + 1) * checkpoint_interval)
                                   (exploitability data ! i)])
                         [0..<nat (total_iterations div checkpoint_interval)])"
    by (simp add: block_events_def)
  from t(1) show "iterations data = map (\<lambda>i. (int i + 1) * checkpoint_interval)
                                [0..<nat (total_iterations div checkpoint_interval)]" .
  from t(2) show "length (exploitability data) = nat (total_iterations div checkpoint_interval)" .
  from run_algorithm_metrics [OF a] show
    "\<exists>cfr. construct A (game_rules self) (passed_kwargs kw) = Inr cfr \<and>
            (\<forall>i<nat (total_iterations div checkpoint_interval). \<exists>s result.
               advance A checkpoint_interval (Suc i) cfr = Inr s \<and>
               best_response A (profile A s) = Inr result \<and>
               exploitability data ! i = py_sum (snd result))"
    by blast
qed

theorem run_algorithm_block_structure_witness:
  "run_algorithm counting_solver ''x'' 25 10 None demo_session =
     (demo_session\<lparr>results := [(''x'', demo_data)]\<rparr>, demo_out, Inr demo_data) \<and>
   construct_calls demo_out = [passed_kwargs None] \<and>
   iterations demo_data = map (\<lambda>i. (int i + 1) * 10) [0..<nat (25 div 10)]"
  using run_algorithm_block_structure [where A = counting_solver and name = "''x''"
      and total_iterations = 25 and checkpoint_interval = 10 and kw = None
      and self = demo_session and self' = "demo_session\<lparr>results := [(''x'', demo_data)]\<rparr>"
      and out = demo_out and data = demo_data]
    demo_run
  by simp

section \<open>The result store as a dictionary\<close>

lemma dict_keys_setitem:
  "dict_keys (dict_setitem d k v) = (if k \<in> set (dict_keys d) then dict_keys d else dict_keys d @ [k])"
proof (induction d)
  case Nil
  then show ?case by (simp add: dict_keys_def)
next
  case (Cons p d)
  obtain k' v' where p: "p = (k', v')" by (cases p)
  show ?case
  proof (cases "k' = k")
    case True
    then show ?thesis by (simp add: p dict_keys_def)
  next
    case False
    with Cons.IH show ?thesis by (simp add: p dict_keys_def)
  qed
qed

lemma map_of_setitem:
  "map_of (dict_setitem d k v) k' = (if k' = k then Some v else map_of d k')"
  by (induction d) auto

lemma filter_setitem:
  "distinct (dict_keys d) \<Longrightarrow> filter (\<lambda>p. fst p = k) (dict_setitem d k v) = [(k, v)]"
proof (induction d)
  case Nil
  then show ?case by simp
next
  case (Cons p d)
  show ?case
  proof (cases "fst p = k")
    case True
    with Cons.prems have "k \<notin> fst ` set d" by (simp add: dict_keys_def)
    then have "filter (\<lambda>p. fst p = k) d = []" by (auto simp: filter_empty_conv)
    with True show ?thesis by (cases p) simp
  next
    case False
    with Cons show ?thesis by (cases p) (simp add: dict_keys_def)
  qed
qed

section \<open>\<open>compare_algorithms\<close>\<close>

lemma unpack_config_malformed:
  "unpack_config config = Inl ValueError \<longleftrightarrow> len_config config \<noteq> 2 \<and> len_config config \<noteq> 3"
  by (cases config) simp_all


lemma run_algorithm_raises:
  "run_algorithm A name ti ci kw self = (self', out, Inl e) \<Longrightarrow> self' = self"
  by (auto simp: run_algorithm_def Let_def dict_getitem_setitem split: sum.splits prod.splits)

lemma compare_algorithms_append:
  "compare_algorithms pre ti ci self = (self1, out1, Inr u)
   \<Longrightarrow> compare_algorithms (pre @ post) ti ci self =
       (case compare_algorithms post ti ci self1 of (self2, out2, r) \<Rightarrow> (self2, out1 @ out2, r))"
proof (induction pre arbitrary: self out1)
  case Nil
  then show ?case by (simp split: prod.splits)
next
  case (Cons config pre)
  from Cons.prems obtain c n k sa oa d ob where
    u: "unpack_config config = Inr (c, n, k)" and
    r: "run_algorithm c n ti ci k self = (sa, oa, Inr d)" and
    rest: "compare_algorithms pre ti ci sa = (self1, ob, Inr u)" and
    o: "out1 = oa @ ob"
    by (auto split: sum.splits prod.splits)
  from Cons.IH [OF rest] u r o show ?case
    by (simp split: prod.splits)
qed

text \<open>
  Claim C5. In a batch passed to \<open>compare_algorithms\<close>, a configuration
  tuple whose length is neither 2 nor 3 raises \<open>ValueError\<close>. When the
  entries before it have completed, the call ends with the benchmark object
  and the trace exactly as those entries left them: the Result Store is
  intact, and nothing, in particular no constructor call and no \<open>run\<close>, is
  performed for the malformed entry or for any entry after it.
\<close>

theorem compare_algorithms_malformed_config:
  assumes "len_config bad \<noteq> 2" and "len_config bad \<noteq> 3"
    and "compare_algorithms pre total_iterations checkpoint_interval self = (self1, out1, Inr ())"
  shows "compare_algorithms (pre @ bad # post) total_iterations checkpoint_interval self
           = (self1, out1, Inl ValueError)"
proof -
  from assms(1,2) have "unpack_config bad = Inl ValueError"
    by (simp add: unpack_config_malformed)
  then have "compare_algorithms (bad # post) total_iterations checkpoint_interval self1
               = (self1, [], Inl ValueError)"
    by simp
  with compare_algorithms_append [OF assms(3), of "bad # post"] show ?thesis
    by simp
qed


lemma demo_batch_run:
  "snd (snd (compare_algorithms demo_batch 1000 500 demo_session)) = Inr () \<and>
   results (fst (compare_algorithms demo_batch 1000 500 demo_session))
     = [(''x'', demo_data_500), (''y'', demo_data_500)]"
  by code_simp

theorem compare_algorithms_malformed_config_witness:
  "len_config demo_malformed \<noteq> 2 \<and> len_config demo_malformed \<noteq> 3 \<and>
   snd (snd (compare_algorithms (demo_batch @ demo_malformed # [T2 counting_solver ''w''])
               1000 500 demo_session)) = Inl ValueError \<and>
   results (fst (compare_algorithms (demo_batch @ demo_malformed # [T2 counting_solver ''w''])
               1000 500 demo_session)) = [(''x'', demo_data_500), (''y'', demo_data_500)]"
proof -
  have l: "len_config demo_malformed \<noteq> 2" "len_config demo_malformed \<noteq> 3"
    by (simp_all add: demo_malformed_def)
  obtain s1 o1 where
    pre: "compare_algorithms demo_batch 1000 500 demo_session = (s1, o1, Inr ())"
    using demo_batch_run by (metis prod.collapse)
  with demo_batch_run have "results s1 = [(''x'', demo_data_500), (''y'', demo_data_500)]"
    by simp
  with compare_algorithms_malformed_config [OF l pre, of "[T2 counting_solver ''w'']"] l show ?thesis
    by simp
qed

section \<open>Reusing a name\<close>

lemma run_algorithm_result_independent:
  "game_rules s = game_rules self
   \<Longrightarrow> snd (snd (run_algorithm A name ti ci kw s)) = snd (snd (run_algorithm A name ti ci kw self))"
  by (simp add: run_algorithm_def Let_def dict_getitem_setitem split: sum.splits prod.splits)

text \<open>
  Claim C6. When \<open>run_algorithm\<close> is called twice under the same name and
  both calls return, the second call overwrites the entry of the first: the
  store after it is the store before it with the name assigned the dictionary
  that the second call returns, so the Result Store maps the name to exactly
  that dictionary. The keys and their order are those after the first call,
  every other name keeps its entry, the name has a single entry, and the
  stored dictionary is the schedule of the second call, the one that the call
  produces on a fresh session: nothing of the first run remains in it. Both
  calls do return, each storing what it returns, when the intervals are not
  zero and the solvers do not raise.
\<close>

theorem run_algorithm_last_write_wins:
  fixes A1 :: "('g, 's1, 'p, 'v::{plus,zero}) algorithm_class"
    and A2 :: "('g, 's2, 'p, 'v) algorithm_class"
  shows
    "(run_algorithm A1 name ti1 ci1 kw1 self = (self1, out1, Inr data1) \<and>
      run_algorithm A2 name ti2 ci2 kw2 self1 = (self2, out2, Inr data2) \<longrightarrow>
        results self2 = dict_setitem (results self1) name data2 \<and>
        dict_getitem (results self2) name = Inr data2 \<and>
        dict_keys (results self2) = dict_keys (results self1) \<and>
        (\<forall>k. k \<noteq> name \<longrightarrow> map_of (results self2) k = map_of (results self1) k) \<and>
        (distinct (dict_keys (results self)) \<longrightarrow>
           filter (\<lambda>p. fst p = name) (results self2) = [(name, data2)]) \<and>
        iterations data2 = map (\<lambda>i. (int i + 1) * ci2) [0..<nat (ti2 div ci2)] \<and>
        length (exploitability data2) = nat (ti2 div ci2) \<and>
        snd (snd (run_algorithm A2 name ti2 ci2 kw2
                    (CFRBenchmark_init (game_rules self) (game_name self)))) = Inr data2) \<and>
     ((\<forall>g k. \<exists>s. construct A1 g k = Inr s) \<and> (\<forall>s. \<exists>s'. run A1 s ci1 = Inr s') \<and>
      (\<forall>p. \<exists>r. best_response A1 p = Inr r) \<and> ci1 \<noteq> 0 \<and>
      (\<forall>g k. \<exists>s. construct A2 g k = Inr s) \<and> (\<forall>s. \<exists>s'. run A2 s ci2 = Inr s') \<and>
      (\<forall>p. \<exists>r. best_response A2 p = Inr r) \<and> ci2 \<noteq> 0 \<longrightarrow>
        (\<exists>s1 o1 d1 s2 o2 d2.
           run_algorithm A1 name ti1 ci1 kw1 self = (s1, o1, Inr d1) \<and>
           run_algorithm A2 name ti2 ci2 kw2 s1 = (s2, o2, Inr d2) \<and>
           map_of (results s1) name = Some d1 \<and>
           map_of (results s2) name = Some d2))"
proof (intro conjI impI)
  assume both: "run_algorithm A1 name ti1 ci1 kw1 self = (self1, out1, Inr data1) \<and>
      run_algorithm A2 name ti2 ci2 kw2 self1 = (self2, out2, Inr data2)"
  then have r1: "run_algorithm A1 name ti1 ci1 kw1 self = (self1, out1, Inr data1)"
    and r2: "run_algorithm A2 name ti2 ci2 kw2 self1 = (self2, out2, Inr data2)"
    by simp_all
  from r1 have s1: "self1 = self\<lparr>results := dict_setitem (results self) name data1\<rparr>"
    by (rule run_algorithm_returns)
  from r2 have s2: "self2 = self1\<lparr>results := dict_setitem (results self1) name data2\<rparr>"
    by (rule run_algorithm_returns)
  have k1: "name \<in> set (dict_keys (results self1))"
    by (simp add: s1 dict_keys_setitem)
  show "results self2 = dict_setitem (results self1) name data2"
    by (simp add: s2)
  show "dict_getitem (results self2) name = Inr data2"
    by (simp add: s2 dict_getitem_setitem)
  show "dict_keys (results self2) = dict_keys (results self1)"
    using k1 by (simp add: s2 dict_keys_setitem)
  show "\<forall>k. k \<noteq> name \<longrightarrow> map_of (results self2) k = map_of (results self1) k"
    by (simp add: s2 map_of_setitem)
  show "iterations data2 = map (\<lambda>i. (int i + 1) * ci2) [0..<nat (ti2 div ci2)]"
    by (rule run_algorithm_trace(1) [OF r2])
  show "length (exploitability data2) = nat (ti2 div ci2)"
    by (rule run_algorithm_trace(2) [OF r2])
  have "game_rules (CFRBenchmark_init (game_rules self) (game_name self)) = game_rules self1"
    by (simp add: CFRBenchmark_init_def s1)
  from run_algorithm_result_independent [OF this, of A2 name ti2 ci2 kw2] r2
  show "snd (snd (run_algorithm A2 name ti2 ci2 kw2
                     (CFRBenchmark_init (game_rules self) (game_name self)))) = Inr data2"
    by simp
  {
    assume "distinct (dict_keys (results self))"
    then have "distinct (dict_keys (results self1))"
      by (simp add: s1 dict_keys_setitem)
    then show "filter (\<lambda>p. fst p = name) (results self2) = [(name, data2)]"
      by (simp add: s2 filter_setitem)
  }
next
  assume n: "(\<forall>g k. \<exists>s. construct A1 g k = Inr s) \<and> (\<forall>s. \<exists>s'. run A1 s ci1 = Inr s') \<and>
      (\<forall>p. \<exists>r. best_response A1 p = Inr r) \<and> ci1 \<noteq> 0 \<and>
      (\<forall>g k. \<exists>s. construct A2 g k = Inr s) \<and> (\<forall>s. \<exists>s'. run A2 s ci2 = Inr s') \<and>
      (\<forall>p. \<exists>r. best_response A2 p = Inr r) \<and> ci2 \<noteq> 0"
  then have "\<exists>self' out data. run_algorithm A1 name ti1 ci1 kw1 self = (self', out, Inr data)"
    by (intro run_algorithm_returns_normally) simp_all
  then obtain s1 o1 d1 where r1: "run_algorithm A1 name ti1 ci1 kw1 self = (s1, o1, Inr d1)"
    by blast
  from n have "\<exists>self' out data. run_algorithm A2 name ti2 ci2 kw2 s1 = (self', out, Inr data)"
    by (intro run_algorithm_returns_normally) simp_all
  then obtain s2 o2 d2 where r2: "run_algorithm A2 name ti2 ci2 kw2 s1 = (s2, o2, Inr d2)"
    by blast
  from r1 have "s1 = self\<lparr>results := dict_setitem (results self) name d1\<rparr>"
    by (rule run_algorithm_returns)
  then have m1: "map_of (results s1) name = Some d1"
    by (simp add: map_of_setitem)
  from r2 have "s2 = s1\<lparr>results := dict_setitem (results s1) name d2\<rparr>"
    by (rule run_algorithm_returns)
  then have m2: "map_of (results s2) name = Some d2"
    by (simp add: map_of_setitem)
  from r1 r2 m1 m2 show "\<exists>s1 o1 d1 s2 o2 d2.
           run_algorithm A1 name ti1 ci1 kw1 self = (s1, o1, Inr d1) \<and>
           run_algorithm A2 name ti2 ci2 kw2 s1 = (s2, o2, Inr d2) \<and>
           map_of (results s1) name = Some d1 \<and>
           map_of (results s2) name = Some d2"
    by blast
qed

lemma demo_rerun:
  "run_algorithm counting_solver ''x'' 30 10 None (demo_session\<lparr>results := [(''x'', demo_data)]\<rparr>) =
     (demo_session\<lparr>results := [(''x'', demo_data_30)]\<rparr>,
      demo_out @ [Call_run 10, Call_best_response, Print_checkpoint 30 31], Inr demo_data_30)"
  by code_simp

theorem run_algorithm_last_write_wins_witness:
  "run_algorithm counting_solver ''x'' 25 10 None demo_session =
     (demo_session\<lparr>results := [(''x'', demo_data)]\<rparr>, demo_out, Inr demo_data) \<and>
   run_algorithm counting_solver ''x'' 30 10 None (demo_session\<lparr>results := [(''x'', demo_data)]\<rparr>) =
     (demo_session\<lparr>results := [(''x'', demo_data_30)]\<rparr>,
      demo_out @ [Call_run 10, Call_best_response, Print_checkpoint 30 31], Inr demo_data_30) \<and>
   distinct (dict_keys (results demo_session)) \<and>
   results (demo_session\<lparr>results := [(''x'', demo_data_30)]\<rparr>) =
     dict_setitem (results (demo_session\<lparr>results := [(''x'', demo_data)]\<rparr>)) ''x'' demo_data_30 \<and>
   dict_getitem (results (demo_session\<lparr>results := [(''x'', demo_data_30)]\<rparr>)) ''x'' = Inr demo_data_30 \<and>
   filter (\<lambda>p. fst p = ''x'') (results (demo_session\<lparr>results := [(''x'', demo_data_30)]\<rparr>))
     = [(''x'', demo_data_30)] \<and>
   iterations demo_data_30 = map (\<lambda>i. (int i + 1) * 10) [0..<nat (30 div 10)] \<and>
   demo_data_30 \<noteq> demo_data"
proof -
  have d: "distinct (dict_keys (results demo_session))"
    by (simp add: demo_session_def CFRBenchmark_init_def dict_keys_def)
  have ne: "demo_data_30 \<noteq> demo_data"
    by (simp add: demo_data_30_def demo_data_def)
  from run_algorithm_last_write_wins [where ?A1.0 = counting_solver and ?A2.0 = counting_solver and name = "''x''"
      and ?ti1.0 = 25 and ?ci1.0 = 10 and ?kw1.0 = None and self = demo_session
      and ?self1.0 = "demo_session\<lparr>results := [(''x'', demo_data)]\<rparr>" and ?out1.0 = demo_out
      and ?data1.0 = demo_data and ?ti2.0 = 30 and ?ci2.0 = 10 and ?kw2.0 = None
      and ?self2.0 = "demo_session\<lparr>results := [(''x'', demo_data_30)]\<rparr>"
      and ?out2.0 = "demo_out @ [Call_run 10, Call_best_response, Print_checkpoint 30 31]"
      and ?data2.0 = demo_data_30]
    demo_run demo_rerun d ne
  show ?thesis by blast
qed

section \<open>\<open>print_summary\<close> and \<open>plot_convergence\<close>\<close>






lemma summary_rows_ok:
  "\<forall>p\<in>set rs. has_checkpoint (snd p) \<Longrightarrow> summary_rows rs = (map summary_row rs, Inr ())"
  by (induction rs) (auto simp: has_checkpoint_def py_last_def summary_row_def)

lemma summary_rows_stop:
  "\<forall>p\<in>set pre. has_checkpoint (snd p) \<Longrightarrow> \<not> has_checkpoint d
   \<Longrightarrow> summary_rows (pre @ (n, d) # post) = (map summary_row pre, Inl IndexError)"
  by (induction pre) (auto simp: has_checkpoint_def py_last_def summary_row_def)

lemma print_summary_ok:
  "\<forall>p\<in>set (results self). has_checkpoint (snd p)
   \<Longrightarrow> print_summary self =
        (self, [Print_summary_header (game_name self)] @ map summary_row (results self) @
               [Print_summary_footer], Inr ())"
  by (simp add: print_summary_def summary_rows_ok)

lemma print_summary_stops:
  assumes "(name, data) \<in> set (results self)" and "\<not> has_checkpoint data"
  obtains pre n d post where
    "results self = pre @ (n, d) # post"
    "\<forall>p\<in>set pre. has_checkpoint (snd p)"
    "\<not> has_checkpoint d"
    "print_summary self =
       (self, Print_summary_header (game_name self) # map summary_row pre, Inl IndexError)"
proof -
  from assms have "\<exists>p\<in>set (results self). \<not> has_checkpoint (snd p)" by force
  then obtain pre p post where
    s: "results self = pre @ p # post" and
    b: "\<not> has_checkpoint (snd p)" and
    g: "\<forall>q\<in>set pre. \<not> \<not> has_checkpoint (snd q)"
    by (auto dest!: split_list_first_prop)
  obtain n d where p: "p = (n, d)" by (cases p)
  from g have g': "\<forall>q\<in>set pre. has_checkpoint (snd q)" by simp
  from b p have b': "\<not> has_checkpoint d" by simp
  have "print_summary self =
       (self, Print_summary_header (game_name self) # map summary_row pre, Inl IndexError)"
    by (simp add: print_summary_def s p summary_rows_stop [OF g' b'])
  with s p g' b' show ?thesis by (auto intro: that)
qed

text \<open>
  Claim C8, as the code has it. \<open>print_summary\<close> never changes the benchmark object. On a
  session in which every stored run has a last checkpoint, it prints the
  header, then for each stored run in insertion order one row with the run's
  name and the iteration count and metric value of its last recorded
  checkpoint, then the closing rule, and returns.
\<close>

theorem print_summary_rows:
  "fst (print_summary self) = self \<and>
   ((\<forall>(algorithm_name, data)\<in>set (results self).
        iterations data \<noteq> [] \<and> exploitability data \<noteq> []) \<longrightarrow>
    print_summary self =
      (self,
       [Print_summary_header (game_name self)] @
       map (\<lambda>(algorithm_name, data).
              Print_summary_row algorithm_name (last (iterations data)) (last (exploitability data)))
           (results self) @
       [Print_summary_footer],
       Inr ()))"
proof -
  have "fst (print_summary self) = self"
    by (simp add: print_summary_def split: prod.splits)
  moreover have "print_summary self =
      (self,
       [Print_summary_header (game_name self)] @
       map (\<lambda>(algorithm_name, data).
              Print_summary_row algorithm_name (last (iterations data)) (last (exploitability data)))
           (results self) @
       [Print_summary_footer],
       Inr ())"
    if "\<forall>(algorithm_name, data)\<in>set (results self).
        iterations data \<noteq> [] \<and> exploitability data \<noteq> []"
  proof -
    from that have "\<forall>p\<in>set (results self). has_checkpoint (snd p)"
      by (auto simp: has_checkpoint_def)
    from print_summary_ok [OF this] show ?thesis
      by (simp add: summary_row_def)
  qed
  ultimately show ?thesis by blast
qed

theorem print_summary_rows_witness:
  "results (demo_session\<lparr>results := [(''x'', demo_data)]\<rparr>) = [(''x'', demo_data)] \<and>
   iterations demo_data \<noteq> [] \<and> exploitability demo_data \<noteq> [] \<and>
   print_summary (demo_session\<lparr>results := [(''x'', demo_data)]\<rparr>) =
     (demo_session\<lparr>results := [(''x'', demo_data)]\<rparr>,
      [Print_summary_header ''Leduc Poker'', Print_summary_row ''x'' 20 21, Print_summary_footer],
      Inr ())"
proof -
  have h: "\<forall>(algorithm_name, data)\<in>set (results (demo_session\<lparr>results := [(''x'', demo_data)]\<rparr>)).
        iterations data \<noteq> [] \<and> exploitability data \<noteq> []"
    by (simp add: demo_data_def)
  with print_summary_rows [of "demo_session\<lparr>results := [(''x'', demo_data)]\<rparr>"] show ?thesis
    by (simp add: demo_data_def demo_session_def CFRBenchmark_init_def)
qed

text \<open>
  Claim C8 as stated fails on a session that holds a run without checkpoints:
  after the runs \<open>a\<close>, \<open>x\<close> (interval above the budget) and \<open>b\<close>,
  \<open>print_summary\<close> prints the row of \<open>a\<close> and raises; neither \<open>x\<close> nor
  \<open>b\<close> gets a row.
\<close>

theorem print_summary_mixed_session_counterexample:
  "results demo_mixed_session = [(''a'', demo_data), (''x'', demo_empty), (''b'', demo_data)] \<and>
   print_summary demo_mixed_session =
     (demo_mixed_session,
      [Print_summary_header ''Leduc Poker'', Print_summary_row ''a'' 20 21],
      Inl IndexError) \<and>
   summary_row_names (fst (snd (print_summary demo_mixed_session))) = [''a''] \<and>
   dict_keys (results demo_mixed_session) = [''a'', ''x'', ''b'']"
  by code_simp

lemma demo_run_empty:
  "run_algorithm counting_solver ''x'' 5 10 None demo_session =
     (demo_session\<lparr>results := [(''x'', demo_empty)]\<rparr>,
      [Print_run_banner ''x'' ''Leduc Poker'', Call_construct []], Inr demo_empty)"
  by code_simp

text \<open>
  Claim C9. When the Result Store contains a run whose list of iteration
  counts is empty, as \<open>run_algorithm\<close> stores it when the interval exceeds
  the budget, \<open>print_summary\<close> raises \<open>IndexError\<close>: it prints the header
  and the rows of the runs before the first run without a last checkpoint, a
  run that is not after the empty one, and fails at the subscript \<open>[-1]\<close>.
\<close>

theorem print_summary_empty_run_raises:
  assumes "(name, data) \<in> set (results self)" and "iterations data = []"
  shows "\<exists>pre n d post.
           results self = pre @ (n, d) # post \<and> (name, data) \<notin> set pre \<and>
           print_summary self =
             (self, Print_summary_header (game_name self) # map summary_row pre, Inl IndexError)"
proof -
  from assms(2) have bad: "\<not> has_checkpoint data"
    by (simp add: has_checkpoint_def)
  from assms(1) bad obtain pre n d post where
    s: "results self = pre @ (n, d) # post" and
    g: "\<forall>p\<in>set pre. has_checkpoint (snd p)" and
    p: "print_summary self =
       (self, Print_summary_header (game_name self) # map summary_row pre, Inl IndexError)"
    by (rule print_summary_stops)
  from g bad have "(name, data) \<notin> set pre" by auto
  with s p show ?thesis by blast
qed


theorem print_summary_empty_run_raises_witness:
  "run_algorithm counting_solver ''x'' 5 10 None demo_session =
     (demo_session\<lparr>results := [(''x'', demo_empty)]\<rparr>,
      [Print_run_banner ''x'' ''Leduc Poker'', Call_construct []], Inr demo_empty) \<and>
   (''x'', demo_empty) \<in> set (results (demo_session\<lparr>results := [(''x'', demo_empty)]\<rparr>)) \<and>
   iterations demo_empty = [] \<and>
   snd (snd (print_summary (demo_session\<lparr>results := [(''x'', demo_empty)]\<rparr>))) = Inl IndexError"
proof -
  have h1: "(''x'', demo_empty) \<in> set (results (demo_session\<lparr>results := [(''x'', demo_empty)]\<rparr>))"
    by simp
  have h2: "iterations demo_empty = []"
    by (simp add: demo_empty_def)
  from print_summary_empty_run_raises [OF h1 h2] have
    "snd (snd (print_summary (demo_session\<lparr>results := [(''x'', demo_empty)]\<rparr>))) = Inl IndexError"
    by auto
  with h1 h2 demo_run_empty show ?thesis by blast
qed

section \<open>The order of the Result Store\<close>







section \<open>The two lists of a run\<close>

lemma list_all_setitem:
  "list_all P d \<Longrightarrow> P (k, v) \<Longrightarrow> list_all P (dict_setitem d k v)"
  by (induction d) auto


lemma run_algorithm_aligned:
  assumes "lists_aligned self"
  shows "lists_aligned (fst (run_algorithm A name ti ci kw self))"
proof -
  obtain self' out r where c: "run_algorithm A name ti ci kw self = (self', out, r)"
    by (metis prod.collapse)
  show ?thesis
  proof (cases r)
    case (Inl e)
    with c have "self' = self" by (simp add: run_algorithm_raises)
    with c assms show ?thesis by simp
  next
    case (Inr data)
    with c have c': "run_algorithm A name ti ci kw self = (self', out, Inr data)" by simp
    then have s: "self' = self\<lparr>results := dict_setitem (results self) name data\<rparr>"
      by (rule run_algorithm_returns)
    from run_algorithm_trace(1,2) [OF c'] have
      "length (iterations data) = length (exploitability data)" by simp
    with assms have "lists_aligned self'"
      by (simp add: s lists_aligned_def list_all_setitem)
    with c show ?thesis by simp
  qed
qed

lemma compare_algorithms_aligned:
  "lists_aligned self \<Longrightarrow> lists_aligned (fst (compare_algorithms configs ti ci self))"
proof (induction configs arbitrary: self)
  case Nil
  then show ?case by simp
next
  case (Cons config configs)
  show ?case
  proof (cases "unpack_config config")
    case (Inl e)
    with Cons.prems show ?thesis by simp
  next
    case (Inr t)
    obtain c n k where t: "t = (c, n, k)" by (cases t)
    obtain sa oa r where run: "run_algorithm c n ti ci k self = (sa, oa, r)"
      by (metis prod.collapse)
    from run_algorithm_aligned [OF Cons.prems, of c n ti ci k] run
    have sa: "lists_aligned sa" by simp
    show ?thesis
    proof (cases r)
      case (Inl e)
      with Inr t run sa show ?thesis by simp
    next
      case (Inr d)
      obtain sb ob rb where rest: "compare_algorithms configs ti ci sa = (sb, ob, rb)"
        by (metis prod.collapse)
      with Cons.IH [OF sa] have "lists_aligned sb" by simp
      with \<open>unpack_config config = Inr t\<close> t run Inr rest show ?thesis
        by simp
    qed
  qed
qed

text \<open>
  Claim C10. In every stored run the list of iteration counts and the list of
  metric values have the same length: this holds of a new benchmark object and
  is preserved by \<open>run_algorithm\<close>, \<open>compare_algorithms\<close>,
  \<open>print_summary\<close> and \<open>plot_convergence\<close>, whether they return or
  raise. For the run stored by a returning call, both lengths are
  \<open>total_iterations div checkpoint_interval\<close> when that quotient is not
  negative (and zero otherwise).
\<close>

theorem lists_aligned_invariant:
  fixes A :: "('g, 's, 'p, 'v::{plus,zero}) algorithm_class"
    and configs :: "('g, 't, 'p, 'v) algorithm_class config list"
    and self :: "('g, 'p, 'v) CFRBenchmark"
  shows "lists_aligned (CFRBenchmark_init rules label :: ('g, 'p, 'v) CFRBenchmark) \<and>
   (lists_aligned self \<longrightarrow>
      lists_aligned (fst (run_algorithm A name total_iterations checkpoint_interval kw self)) \<and>
      lists_aligned (fst (compare_algorithms configs total_iterations checkpoint_interval self)) \<and>
      lists_aligned (fst (print_summary self)) \<and>
      lists_aligned (fst (plot_convergence save_path log_scale figsize style_config self))) \<and>
   (run_algorithm A name total_iterations checkpoint_interval kw self = (self', out, Inr data) \<longrightarrow>
      length (iterations data) = nat (total_iterations div checkpoint_interval) \<and>
      length (exploitability data) = nat (total_iterations div checkpoint_interval) \<and>
      (0 \<le> total_iterations div checkpoint_interval \<longrightarrow>
         int (length (iterations data)) = total_iterations div checkpoint_interval \<and>
         int (length (exploitability data)) = total_iterations div checkpoint_interval))"
proof -
  have "lists_aligned (CFRBenchmark_init rules label :: ('g, 'p, 'v) CFRBenchmark)"
    by (simp add: lists_aligned_def CFRBenchmark_init_def)
  moreover have "fst (print_summary self) = self"
    by (simp add: print_summary_def split: prod.splits)
  moreover have "fst (plot_convergence save_path log_scale figsize style_config self) = self"
    by (simp add: plot_convergence_def)
  moreover have "length (iterations data) = nat (total_iterations div checkpoint_interval) \<and>
      length (exploitability data) = nat (total_iterations div checkpoint_interval)"
    if "run_algorithm A name total_iterations checkpoint_interval kw self = (self', out, Inr data)"
    using run_algorithm_trace(1,2) [OF that] by simp
  ultimately show ?thesis
    using run_algorithm_aligned [of self A name total_iterations checkpoint_interval kw]
      compare_algorithms_aligned [of self configs total_iterations checkpoint_interval]
    by auto
qed

theorem lists_aligned_invariant_witness:
  "lists_aligned demo_session \<and>
   lists_aligned (fst (run_algorithm counting_solver ''x'' 25 10 None demo_session)) \<and>
   lists_aligned (fst (compare_algorithms demo_batch 25 10 demo_session)) \<and>
   run_algorithm counting_solver ''x'' 25 10 None demo_session =
     (demo_session\<lparr>results := [(''x'', demo_data)]\<rparr>, demo_out, Inr demo_data) \<and>
   (0::int) \<le> 25 div 10 \<and>
   int (length (iterations demo_data)) = 25 div 10 \<and>
   int (length (exploitability demo_data)) = 25 div 10"
proof -
  have a: "lists_aligned demo_session"
    by (simp add: lists_aligned_def demo_session_def CFRBenchmark_init_def)
  have q: "(0::int) \<le> 25 div 10" by simp
  from lists_aligned_invariant [where self = demo_session and A = counting_solver and name = "''x''"
      and total_iterations = 25 and checkpoint_interval = 10 and kw = None
      and configs = demo_batch and self' = "demo_session\<lparr>results := [(''x'', demo_data)]\<rparr>"
      and out = demo_out and data = demo_data]
    a q demo_run
  show ?thesis by blast
qed

section \<open>The degenerate schedule\<close>




end
